theory Spec2Isabelle
  imports Main
begin

section \<open>Error values\<close>

text \<open>
  The fields of \<^verbatim>\<open>pgconn.PgError\<close> that the package reads (\<^verbatim>\<open>Code\<close>) or that its
  \<^verbatim>\<open>Error()\<close> text is made of.
\<close>

record pg_error =
  Severity :: string
  Code :: string
  Message :: string

text \<open>
  A Go \<^verbatim>\<open>error\<close> value. The type assertion \<^verbatim>\<open>err.(*pgconn.PgError)\<close> succeeds exactly on
  the constructor \<open>PgError\<close>; every other dynamic type is one of the other constructors.
  \<open>ErrNoRows\<close> is \<^verbatim>\<open>sql.ErrNoRows\<close>, \<open>Canceled\<close> and \<open>DeadlineExceeded\<close> are the two errors
  of package \<^verbatim>\<open>context\<close>, \<open>New\<close> is \<^verbatim>\<open>errors.New\<close> or \<^verbatim>\<open>fmt.Errorf\<close> without operands,
  \<open>Wrap p e\<close> is \<^verbatim>\<open>fmt.Errorf(p + "%w", e)\<close> and \<open>Wrap2 a m b\<close> is
  \<^verbatim>\<open>fmt.Errorf("%w" + m + "%w", a, b)\<close>.
\<close>

datatype error =
    ErrNoRows
  | ErrDBDuplicatedEntry
  | ErrUndefinedTable
  | PgError pg_error
  | Canceled
  | DeadlineExceeded
  | New string
  | Wrap string error
  | Wrap2 error string error

definition uniqueViolation :: string where
  "uniqueViolation = ''23505''"

definition undefinedTable :: string where
  "undefinedTable = ''42P01''"

definition ErrDBNotFound :: error where
  "ErrDBNotFound = ErrNoRows"

text \<open>The text of an error, \<^verbatim>\<open>err.Error()\<close>.\<close>

fun Error :: "error \<Rightarrow> string" where
  "Error ErrNoRows = ''sql: no rows in result set''"
| "Error ErrDBDuplicatedEntry = ''duplicated entry''"
| "Error ErrUndefinedTable = ''undefined table''"
| "Error (PgError pe) = Severity pe @ '': '' @ Message pe @ '' (SQLSTATE '' @ Code pe @ '')''"
| "Error Canceled = ''context canceled''"
| "Error DeadlineExceeded = ''context deadline exceeded''"
| "Error (New s) = s"
| "Error (Wrap p e) = p @ Error e"
| "Error (Wrap2 a m b) = Error a @ m @ Error b"

section \<open>Query and mutation helpers\<close>

text \<open>
  The cursor \<^verbatim>\<open>*sqlx.Rows\<close>: the rows that \<^verbatim>\<open>rows.Next()\<close> steps through before it returns
  \<^verbatim>\<open>false\<close>, and \<^verbatim>\<open>rows.Err()\<close> after that, the driver or context error that ended the
  iteration, \<open>None\<close> when it ended after the last row.
\<close>

record 'row Rows =
  fetched :: "'row list"
  rows_Err :: "error option"

text \<open>
  The driver is a parameter. \<open>NamedQueryContext query\<close> stands for
  \<^verbatim>\<open>sqlx.NamedQueryContext(ctx, db, query, struct{}{})\<close>: it fails with an error or returns
  a cursor. \<open>StructScan r dest\<close> stands for \<^verbatim>\<open>rows.StructScan(dest)\<close> on the current row
  \<open>r\<close>: it returns the error (\<open>None\<close> is Go's \<^verbatim>\<open>nil\<close>) and the destination as the call
  leaves it. Each helper returns its error and the caller's destination after the call.
  Neither helper calls \<^verbatim>\<open>rows.Err()\<close>, so \<open>rows_Err\<close> is read by neither. The deferred
  \<^verbatim>\<open>rows.Close()\<close> changes neither result and is left out.
\<close>

definition RunQuery ::
  "(string \<Rightarrow> error + 'row Rows) \<Rightarrow> ('row \<Rightarrow> 'd \<Rightarrow> error option \<times> 'd) \<Rightarrow> string \<Rightarrow> 'd
     \<Rightarrow> error option \<times> 'd" where
  "RunQuery NamedQueryContext StructScan query dest =
     (case NamedQueryContext query of
        Inl err \<Rightarrow>
          (case err of
             PgError pqerr \<Rightarrow>
               if Code pqerr = undefinedTable then (Some ErrUndefinedTable, dest)
               else (Some err, dest)
           | _ \<Rightarrow> (Some err, dest))
      | Inr rows \<Rightarrow>
          (case fetched rows of
             [] \<Rightarrow> (Some ErrDBNotFound, dest)
           | r # _ \<Rightarrow> StructScan r dest))"

text \<open>
  The loop of \<^verbatim>\<open>RunQuerySlice\<close> over the rows that \<^verbatim>\<open>rows.Next()\<close> steps through: every
  row is scanned into a fresh \<^verbatim>\<open>new(T)\<close>, whose value is \<open>zero\<close>, and appended to
  \<open>slice\<close>; the first scan error leaves the loop.
\<close>

fun scan_rows ::
  "('row \<Rightarrow> 'a \<Rightarrow> error option \<times> 'a) \<Rightarrow> 'a \<Rightarrow> 'row list \<Rightarrow> 'a list \<Rightarrow> error + 'a list" where
  "scan_rows StructScan zero [] slice = Inr slice"
| "scan_rows StructScan zero (r # rows) slice =
     (case StructScan r zero of
        (Some err, _) \<Rightarrow> Inl err
      | (None, v) \<Rightarrow> scan_rows StructScan zero rows (slice @ [v]))"

definition RunQuerySlice ::
  "(string \<Rightarrow> error + 'row Rows) \<Rightarrow> ('row \<Rightarrow> 'a \<Rightarrow> error option \<times> 'a) \<Rightarrow> 'a \<Rightarrow> string
     \<Rightarrow> 'a list \<Rightarrow> error option \<times> 'a list" where
  "RunQuerySlice NamedQueryContext StructScan zero query dest =
     (case NamedQueryContext query of
        Inl err \<Rightarrow>
          (case err of
             PgError pqerr \<Rightarrow>
               if Code pqerr = undefinedTable then (Some ErrUndefinedTable, dest)
               else (Some err, dest)
           | _ \<Rightarrow> (Some err, dest))
      | Inr rows \<Rightarrow>
          (case scan_rows StructScan zero (fetched rows) [] of
             Inl err \<Rightarrow> (Some err, dest)
           | Inr slice \<Rightarrow> (None, slice)))"

text \<open>The \<^verbatim>\<open>sql.Result\<close> of a statement; \<^verbatim>\<open>RunCUD\<close> drops it.\<close>

record sql_Result =
  LastInsertId :: int
  RowsAffected :: int

text \<open>
  \<open>NamedExecContext query data\<close> stands for \<^verbatim>\<open>sqlx.NamedExecContext(ctx, db, query, data)\<close>.
  The \<^verbatim>\<open>switch\<close> tests \<open>undefinedTable\<close> first.
\<close>

definition RunCUD ::
  "(string \<Rightarrow> 'data \<Rightarrow> error + sql_Result) \<Rightarrow> string \<Rightarrow> 'data \<Rightarrow> error option" where
  "RunCUD NamedExecContext query data =
     (case NamedExecContext query data of
        Inl err \<Rightarrow>
          (case err of
             PgError pqerr \<Rightarrow>
               if Code pqerr = undefinedTable then Some ErrUndefinedTable
               else if Code pqerr = uniqueViolation then Some ErrDBDuplicatedEntry
               else Some err
           | _ \<Rightarrow> Some err)
      | Inr _ \<Rightarrow> None)"

section \<open>Time, contexts and the pool handle\<close>

text \<open>
  Time is the reading of a virtual monotonic clock in nanoseconds. A \<^verbatim>\<open>time.Duration\<close> is
  an \<^verbatim>\<open>int64\<close> count of nanoseconds; \<open>wrap64\<close> is the two's complement result of an
  \<^verbatim>\<open>int64\<close> operation.
\<close>

definition wrap64 :: "int \<Rightarrow> int" where
  "wrap64 x = (x + 2 ^ 63) mod 2 ^ 64 - 2 ^ 63"

definition Second :: int where
  "Second = 1000000000"

text \<open>
  A \<^verbatim>\<open>context.Context\<close>: its deadline, if it has one, and the time at which it is
  cancelled by its owner, if ever. \<open>ctx_Err\<close> is \<^verbatim>\<open>ctx.Err()\<close> read at time \<open>now\<close>: the
  error of whichever of the two came first, once that time is reached.
\<close>

record Context =
  deadline :: "nat option"
  cancel_at :: "nat option"

definition Background :: Context where
  "Background = \<lparr>deadline = None, cancel_at = None\<rparr>"

fun first_done :: "nat option \<Rightarrow> nat option \<Rightarrow> (nat \<times> error) option" where
  "first_done None None = None"
| "first_done (Some d) None = Some (d, DeadlineExceeded)"
| "first_done None (Some t) = Some (t, Canceled)"
| "first_done (Some d) (Some t) =
     (if t < d then Some (t, Canceled) else Some (d, DeadlineExceeded))"

definition ctx_Err :: "Context \<Rightarrow> nat \<Rightarrow> error option" where
  "ctx_Err ctx now =
     (case first_done (deadline ctx) (cancel_at ctx) of
        None \<Rightarrow> None
      | Some (t, err) \<Rightarrow> if t \<le> now then Some err else None)"

text \<open>
  \<^verbatim>\<open>context.WithTimeout(parent, timeout)\<close> called at time \<open>now\<close>: the child keeps an
  earlier deadline of the parent and inherits its cancellation.
\<close>

definition WithTimeout :: "Context \<Rightarrow> int \<Rightarrow> nat \<Rightarrow> Context" where
  "WithTimeout parent timeout now =
     (case deadline parent of
        Some cur \<Rightarrow>
          if cur < now + nat timeout then parent
          else parent\<lparr>deadline := Some (now + nat timeout)\<rparr>
      | None \<Rightarrow> parent\<lparr>deadline := Some (now + nat timeout)\<rparr>)"

text \<open>
  The pool handle \<^verbatim>\<open>*sqlx.DB\<close>: how the server answers \<^verbatim>\<open>db.PingContext(ctx)\<close> and
  \<^verbatim>\<open>db.QueryRowContext(ctx, q).Scan(&tmp)\<close> when called at a given time (the error and
  the nanoseconds the call takes), and the three pool settings.
\<close>

record DB =
  PingContext :: "Context \<Rightarrow> nat \<Rightarrow> error option \<times> nat"
  QueryRowScan :: "Context \<Rightarrow> nat \<Rightarrow> error option \<times> nat"
  maxIdleConns :: int
  maxOpenConns :: int
  connMaxIdleTime :: int

text \<open>What a call does to the outside, in order.\<close>

datatype event =
    OpenPool string string
  | Ping nat "error option"
  | Sleep int
  | Query nat

text \<open>The durations of the sleeps among the events, in order.\<close>

fun sleeps :: "event list \<Rightarrow> int list" where
  "sleeps [] = []"
| "sleeps (Sleep d # es) = d # sleeps es"
| "sleeps (e # es) = sleeps es"

section \<open>The health check\<close>

text \<open>
  The retry loop of \<^verbatim>\<open>StatusCheck\<close>. \<open>attempts\<close> is the loop counter, \<open>now\<close> the clock
  and \<open>tr\<close> the events so far. The loop has no bound of its own, so not returning is the
  value \<open>None\<close>. It leaves with \<open>None\<close> as error on \<^verbatim>\<open>break\<close> and with \<open>Some\<close> on
  \<^verbatim>\<open>return\<close>. \<^verbatim>\<open>time.Sleep(d)\<close> returns at once when \<open>d \<le> 0\<close> and is taken to sleep
  \<open>d\<close> nanoseconds otherwise.
\<close>

partial_function (option) ping_loop ::
  "DB \<Rightarrow> Context \<Rightarrow> int \<Rightarrow> nat \<Rightarrow> event list \<Rightarrow> (error option \<times> nat \<times> event list) option" where
  "ping_loop db ctx attempts now tr =
     (case PingContext db ctx now of
        (None, took) \<Rightarrow> Some (None, now + took, tr @ [Ping now None])
      | (Some pingError, took) \<Rightarrow>
          (let d = wrap64 (wrap64 (attempts * 1) * Second);
               now' = now + took + nat d;
               tr' = tr @ [Ping now (Some pingError), Sleep d]
           in case ctx_Err ctx now' of
                Some cerr \<Rightarrow> Some (Some (Wrap2 cerr '' : database: '' pingError), now', tr')
              | None \<Rightarrow> ping_loop db ctx (wrap64 (attempts + 1)) now' tr'))"

text \<open>
  The first statement of \<^verbatim>\<open>StatusCheck\<close>: a context without a deadline is replaced by
  its child with a timeout of \<^verbatim>\<open>time.Second*5\<close>.
\<close>

definition with_default_deadline :: "Context \<Rightarrow> nat \<Rightarrow> Context" where
  "with_default_deadline ctx now =
     (if deadline ctx = None then WithTimeout ctx (wrap64 (Second * 5)) now else ctx)"

text \<open>
  \<^verbatim>\<open>StatusCheck(ctx, db)\<close> called at time \<open>now\<close>: the error it returns, the time at which
  it returns and its events.
\<close>

definition StatusCheck ::
  "Context \<Rightarrow> DB \<Rightarrow> nat \<Rightarrow> (error option \<times> nat \<times> event list) option" where
  "StatusCheck ctx0 db now =
     (let ctx = with_default_deadline ctx0 now
      in case ping_loop db ctx 1 now [] of
           None \<Rightarrow> None
         | Some (Some err, now', tr) \<Rightarrow> Some (Some err, now', tr)
         | Some (None, now', tr) \<Rightarrow>
             (case ctx_Err ctx now' of
                Some cerr \<Rightarrow> Some (Some cerr, now', tr)
              | None \<Rightarrow>
                  (case QueryRowScan db ctx now' of
                     (res, took) \<Rightarrow> Some (res, now' + took, tr @ [Query now']))))"

section \<open>Opening the pool\<close>

record Config =
  User :: string
  Password :: string
  Host :: string
  Port :: string
  Name :: string
  Schema :: string
  MaxIdleConns :: int
  MaxOpenConns :: int
  IdleConnTimeout :: int
  EnableTLS :: bool
  CACert :: string
  ClientCert :: string
  ClientKey :: string
  ApplicationName :: string

definition getSSLMode :: "Config \<Rightarrow> error + string" where
  "getSSLMode cfg =
     (if \<not> EnableTLS cfg then Inr ''disable''
      else if CACert cfg = [] \<or> ClientCert cfg = [] \<or> ClientKey cfg = []
        then Inl (New ''SSL certificates not properly configured'')
      else Inr ''require'')"

text \<open>
  \<^verbatim>\<open>url.Values\<close> is a map from a key to its values; \<^verbatim>\<open>q.Set(key, value)\<close> replaces the
  values of \<open>key\<close> by the one value.
\<close>

type_synonym Values = "string \<rightharpoonup> string list"

definition Set_value :: "Values \<Rightarrow> string \<Rightarrow> string \<Rightarrow> Values" where
  "Set_value q key v = q(key \<mapsto> [v])"

text \<open>The fields of \<^verbatim>\<open>url.URL\<close> that \<^verbatim>\<open>Open\<close> fills; \<open>url_User\<close> is user name and password.\<close>

record URL =
  url_Scheme :: string
  url_User :: "string \<times> string"
  url_Host :: string
  url_Path :: string
  url_RawQuery :: string

text \<open>The query parameters of the connection target, as \<^verbatim>\<open>Open\<close> sets them.\<close>

definition open_values :: "Config \<Rightarrow> string \<Rightarrow> Values" where
  "open_values cfg sslMode =
     (let q = Map.empty;
          q = Set_value q ''sslmode'' sslMode;
          q = Set_value q ''timezone'' ''utc'';
          q = Set_value q ''application_name'' (ApplicationName cfg);
          q = (if EnableTLS cfg
               then Set_value (Set_value (Set_value q ''sslrootcert'' (CACert cfg))
                      ''sslcert'' (ClientCert cfg)) ''sslkey'' (ClientKey cfg)
               else q);
          q = (if Schema cfg \<noteq> [] then Set_value q ''search_path'' (Schema cfg) else q)
      in q)"

text \<open>
  The connection target. \<open>Encode\<close> is \<^verbatim>\<open>url.Values.Encode\<close> of the standard library, a
  parameter here.
\<close>

definition open_url :: "(Values \<Rightarrow> string) \<Rightarrow> Config \<Rightarrow> string \<Rightarrow> URL" where
  "open_url Encode cfg sslMode =
     \<lparr>url_Scheme = ''postgres'',
      url_User = (User cfg, Password cfg),
      url_Host = Host cfg @ '':'' @ Port cfg,
      url_Path = Name cfg,
      url_RawQuery = Encode (open_values cfg sslMode)\<rparr>"

text \<open>
  \<^verbatim>\<open>Open(cfg)\<close> called at time \<open>now\<close>. \<open>URL_String\<close> is \<^verbatim>\<open>url.URL.String\<close> and
  \<open>sqlx_Open\<close> is \<^verbatim>\<open>sqlx.Open\<close>, both parameters. The result is the handle or the error,
  with the events of the call.
\<close>

definition Open ::
  "(Values \<Rightarrow> string) \<Rightarrow> (URL \<Rightarrow> string) \<Rightarrow> (string \<Rightarrow> string \<Rightarrow> error + DB) \<Rightarrow> Config \<Rightarrow> nat
     \<Rightarrow> ((error + DB) \<times> event list) option" where
  "Open Encode URL_String sqlx_Open cfg now =
     (case getSSLMode cfg of
        Inl err \<Rightarrow> Some (Inl err, [])
      | Inr sslMode \<Rightarrow>
          (let target = URL_String (open_url Encode cfg sslMode)
           in case sqlx_Open ''pgx'' target of
                Inl err \<Rightarrow> Some (Inl err, [OpenPool ''pgx'' target])
              | Inr db0 \<Rightarrow>
                  (let db = db0\<lparr>maxIdleConns := MaxIdleConns cfg,
                                maxOpenConns := MaxOpenConns cfg,
                                connMaxIdleTime := IdleConnTimeout cfg\<rparr>;
                       t = wrap64 (Second * 5);
                       ctx = WithTimeout Background t now
                   in case StatusCheck ctx db now of
                        None \<Rightarrow> None
                      | Some (Some err, _, tr) \<Rightarrow>
                          Some (Inl (Wrap ''database status check: '' err),
                                OpenPool ''pgx'' target # tr)
                      | Some (None, _, tr) \<Rightarrow> Some (Inr db, OpenPool ''pgx'' target # tr))))"

section \<open>Rendering a query for the log\<close>

text \<open>
  A bound parameter, by the cases of the type switch: a \<^verbatim>\<open>string\<close>, a \<^verbatim>\<open>[]byte\<close>, a
  \<^verbatim>\<open>uuid.UUID\<close> (given by the text of its \<^verbatim>\<open>String()\<close>), or a value of any other type
  (given by its text under \<^verbatim>\<open>%v\<close>).
\<close>

datatype param =
    PString string
  | PBytes string
  | PUUID string
  | POther string

definition quote :: char where
  "quote = CHR 0x27"

definition tab :: char where
  "tab = CHR 0x09"

definition newline :: char where
  "newline = CHR 0x0A"

fun render :: "param \<Rightarrow> string" where
  "render (PString v) = quote # v @ [quote]"
| "render (PBytes v) = quote # v @ [quote]"
| "render (PUUID v) = quote # v @ [quote]"
| "render (POther v) = v"

text \<open>\<^verbatim>\<open>strings.Replace(s, old, new, 1)\<close> for a one-character \<open>old\<close>.\<close>

fun Replace1 :: "string \<Rightarrow> char \<Rightarrow> string \<Rightarrow> string" where
  "Replace1 [] old new = []"
| "Replace1 (c # s) old new = (if c = old then new @ s else c # Replace1 s old new)"

text \<open>\<^verbatim>\<open>strings.ReplaceAll(s, old, new)\<close> for a one-character \<open>old\<close>.\<close>

fun ReplaceAll :: "string \<Rightarrow> char \<Rightarrow> string \<Rightarrow> string" where
  "ReplaceAll [] old new = []"
| "ReplaceAll (c # s) old new =
     (if c = old then new @ ReplaceAll s old new else c # ReplaceAll s old new)"

text \<open>\<^verbatim>\<open>strings.Trim(s, cutset)\<close> for a one-character \<open>cutset\<close>.\<close>

definition Trim :: "string \<Rightarrow> char \<Rightarrow> string" where
  "Trim s cutset = rev (dropWhile (\<lambda>c. c = cutset) (rev (dropWhile (\<lambda>c. c = cutset) s)))"

text \<open>The loop over \<open>params\<close>.\<close>

fun substitute :: "string \<Rightarrow> param list \<Rightarrow> string" where
  "substitute query [] = query"
| "substitute query (p # params) = substitute (Replace1 query (CHR ''?'') (render p)) params"

text \<open>
  \<open>Named\<close> is \<^verbatim>\<open>sqlx.Named\<close>, a parameter: it fails with the resolution error or returns
  the query with one \<^verbatim>\<open>?\<close> for each named placeholder and the bound values in that order.
\<close>

definition ParseQuery ::
  "(string \<Rightarrow> 'args \<Rightarrow> error + string \<times> param list) \<Rightarrow> string \<Rightarrow> 'args \<Rightarrow> string" where
  "ParseQuery Named query0 args =
     (case Named query0 args of
        Inl err \<Rightarrow> Error err
      | Inr (query, params) \<Rightarrow>
          (let query = substitute query params;
               query = ReplaceAll query tab [];
               query = ReplaceAll query newline '' ''
           in Trim query (CHR '' '')))"

text \<open>
  The rendering as the specification words it: the placeholders of the query, from left
  to right, are replaced by the values in their order; a placeholder without a value stays.
\<close>

fun spec_expand :: "string \<Rightarrow> string list \<Rightarrow> string" where
  "spec_expand [] vs = []"
| "spec_expand (c # s) vs =
     (if c = CHR ''?''
      then (case vs of [] \<Rightarrow> c # s | v # vs' \<Rightarrow> v @ spec_expand s vs')
      else c # spec_expand s vs)"

text \<open>
  The whole rendering as the specification words it: the values are put in, tabs are
  dropped, every newline becomes one space and the spaces at both ends are cut off.
\<close>

definition spec_render :: "string \<Rightarrow> param list \<Rightarrow> string" where
  "spec_render query params =
     (let s = spec_expand query (map render params);
          s = filter (\<lambda>c. c \<noteq> tab) s;
          s = map (\<lambda>c. if c = newline then CHR '' '' else c) s
      in rev (dropWhile (\<lambda>c. c = CHR '' '') (rev (dropWhile (\<lambda>c. c = CHR '' '') s))))"

section \<open>Sample values\<close>

text \<open>A configuration with TLS enabled and no client key, used where one is needed.\<close>

definition cfg_no_key :: Config where
  "cfg_no_key =
     \<lparr>User = ''lab'', Password = ''secret'', Host = ''db'', Port = ''5432'', Name = ''lab'',
      Schema = ''public'', MaxIdleConns = 2, MaxOpenConns = 10, IdleConnTimeout = 60000000000,
      EnableTLS = True, CACert = ''ca.pem'', ClientCert = ''client.pem'', ClientKey = [],
      ApplicationName = ''laboratorio''\<rparr>"

text \<open>A configuration with TLS enabled and all three certificate fields.\<close>

definition cfg_tls :: Config where
  "cfg_tls =
     \<lparr>User = ''lab'', Password = ''secret'', Host = ''db'', Port = ''5432'', Name = ''lab'',
      Schema = ''public'', MaxIdleConns = 2, MaxOpenConns = 10, IdleConnTimeout = 60000000000,
      EnableTLS = True, CACert = ''ca.pem'', ClientCert = ''client.pem'', ClientKey = ''client.key'',
      ApplicationName = ''laboratorio''\<rparr>"

text \<open>A server that refuses every probe at once.\<close>

definition db_down :: DB where
  "db_down =
     \<lparr>PingContext = (\<lambda>ctx t. (Some (New ''connection refused''), 0)),
      QueryRowScan = (\<lambda>ctx t. (None, 0)),
      maxIdleConns = 0, maxOpenConns = 0, connMaxIdleTime = 0\<rparr>"

section \<open>Properties of the query and mutation helpers\<close>

lemma scan_rows_all:
  "\<forall>r\<in>set rows. fst (StructScan r zero) = None \<Longrightarrow>
   scan_rows StructScan zero rows acc = Inr (acc @ map (\<lambda>r. snd (StructScan r zero)) rows)"
  by (induction rows arbitrary: acc) (auto split: prod.splits option.splits)

lemma translate_read_error:
  "(case err of
      PgError pqerr \<Rightarrow>
        if Code pqerr = undefinedTable then (Some ErrUndefinedTable, dest) else (Some err, dest)
    | _ \<Rightarrow> (Some err, dest))
   = (Some (if (\<exists>pe. err = PgError pe \<and> Code pe = undefinedTable)
            then ErrUndefinedTable else err), dest)"
  by (cases err) simp_all

lemma scan_rows_fail:
  "\<forall>r\<in>set pre. fst (StructScan r zero) = None \<Longrightarrow> fst (StructScan r zero) = Some e \<Longrightarrow>
   scan_rows StructScan zero (pre @ r # rest) acc = Inl e"
  by (induction pre arbitrary: acc) (auto split: prod.splits option.splits)

text \<open>
  C1. When the driver returns a cursor, \<^verbatim>\<open>RunQuery\<close> on a cursor without a row returns
  \<open>ErrDBNotFound\<close> and leaves the destination as it was; on a cursor with at least one row
  its outcome is that of scanning the first row into the destination, whatever rows follow.
\<close>

theorem RunQuery_rows:
  assumes "NamedQueryContext query = Inr rows"
  shows "(fetched rows = [] \<longrightarrow>
            RunQuery NamedQueryContext StructScan query dest = (Some ErrDBNotFound, dest)) \<and>
         (\<forall>r rest. fetched rows = r # rest \<longrightarrow>
            RunQuery NamedQueryContext StructScan query dest = StructScan r dest)"
  using assms by (simp add: RunQuery_def)

theorem RunQuery_rows_witness:
  "RunQuery (\<lambda>q. Inr \<lparr>fetched = [], rows_Err = None\<rparr>) (\<lambda>r d. (None, r)) ''SELECT 1'' (7::nat)
     = (Some ErrNoRows, 7) \<and>
   RunQuery (\<lambda>q. Inr \<lparr>fetched = [1, 2, 3], rows_Err = None\<rparr>) (\<lambda>r d. (None, r))
     ''SELECT 1'' (7::nat) = (None, 1)"
  using
    RunQuery_rows [where NamedQueryContext = "\<lambda>q. Inr \<lparr>fetched = [], rows_Err = None\<rparr>"
      and query = "''SELECT 1''" and rows = "\<lparr>fetched = [], rows_Err = None\<rparr>"
      and StructScan = "\<lambda>r d. (None, r)" and dest = "7::nat"]
    RunQuery_rows [where NamedQueryContext = "\<lambda>q. Inr \<lparr>fetched = [1, 2, 3], rows_Err = None\<rparr>"
      and query = "''SELECT 1''" and rows = "\<lparr>fetched = [1, 2, 3], rows_Err = None\<rparr>"
      and StructScan = "\<lambda>r d. (None, r)" and dest = "7::nat"]
  by (simp add: ErrDBNotFound_def)

text \<open>
  What holds of \<^verbatim>\<open>RunQuerySlice\<close> on every cursor. Without a row it returns no error and
  the empty sequence. When every row scans, it returns no error and the scanned rows, one
  for each row and in the cursor's order. When a row does not scan and the rows before it
  do, it returns the error of that scan and the destination the caller passed. Whenever
  it returns an error, the destination is the one the caller passed.
\<close>

theorem RunQuerySlice_result:
  "(NamedQueryContext query = Inr rows \<and> fetched rows = [] \<longrightarrow>
      RunQuerySlice NamedQueryContext StructScan zero query dest = (None, [])) \<and>
   (NamedQueryContext query = Inr rows \<and>
    (\<forall>r\<in>set (fetched rows). fst (StructScan r zero) = None) \<longrightarrow>
      RunQuerySlice NamedQueryContext StructScan zero query dest
        = (None, map (\<lambda>r. snd (StructScan r zero)) (fetched rows)) \<and>
      length (snd (RunQuerySlice NamedQueryContext StructScan zero query dest))
        = length (fetched rows)) \<and>
   (NamedQueryContext query = Inr rows \<and> fetched rows = pre @ r # rest \<and>
    (\<forall>r\<in>set pre. fst (StructScan r zero) = None) \<and> fst (StructScan r zero) = Some e \<longrightarrow>
      RunQuerySlice NamedQueryContext StructScan zero query dest = (Some e, dest)) \<and>
   (fst (RunQuerySlice NamedQueryContext StructScan zero query dest) \<noteq> None \<longrightarrow>
      snd (RunQuerySlice NamedQueryContext StructScan zero query dest) = dest)"
  by (auto simp: RunQuerySlice_def scan_rows_all scan_rows_fail translate_read_error
      split: sum.splits)

theorem RunQuerySlice_result_witness:
  "RunQuerySlice (\<lambda>q. Inr \<lparr>fetched = [1, 2, 3], rows_Err = None\<rparr>) (\<lambda>r z. (None, r + z))
     (10::nat) ''SELECT 1'' [99] = (None, [11, 12, 13]) \<and>
   RunQuerySlice (\<lambda>q. Inr \<lparr>fetched = [1, 2, 3], rows_Err = None\<rparr>)
     (\<lambda>r z. (if r = 2 then Some (New ''bad column'') else None, r)) (10::nat) ''SELECT 1'' [99]
     = (Some (New ''bad column''), [99]) \<and>
   RunQuerySlice (\<lambda>q. Inr \<lparr>fetched = ([]::nat list), rows_Err = None\<rparr>)
     (\<lambda>r z. (None, r + z)) (10::nat) ''SELECT 1'' [99] = (None, [])"
  using
    RunQuerySlice_result [where NamedQueryContext =
        "\<lambda>q. Inr \<lparr>fetched = [1, 2, 3], rows_Err = None\<rparr>"
      and StructScan = "\<lambda>r z. (None, r + z)" and zero = "10::nat" and query = "''SELECT 1''"
      and dest = "[99]" and rows = "\<lparr>fetched = [1, 2, 3], rows_Err = None\<rparr>"]
    RunQuerySlice_result [where NamedQueryContext =
        "\<lambda>q. Inr \<lparr>fetched = [1, 2, 3], rows_Err = None\<rparr>"
      and StructScan = "\<lambda>r z. (if r = 2 then Some (New ''bad column'') else None, r)"
      and zero = "10::nat" and query = "''SELECT 1''" and dest = "[99]"
      and rows = "\<lparr>fetched = [1, 2, 3], rows_Err = None\<rparr>"
      and pre = "[1]" and r = 2 and rest = "[3]" and e = "New ''bad column''"]
    RunQuerySlice_result [where NamedQueryContext =
        "\<lambda>q. Inr \<lparr>fetched = ([]::nat list), rows_Err = None\<rparr>"
      and StructScan = "\<lambda>r z. (None, r + z)" and zero = "10::nat" and query = "''SELECT 1''"
      and dest = "[99]" and rows = "\<lparr>fetched = [], rows_Err = None\<rparr>"]
  by simp

text \<open>
  C2. \<^verbatim>\<open>RunQuerySlice\<close> does assign partial results. On a cursor that yields two rows and
  then ends on the error of an expired context, it returns no error and the destination is
  the two rows scanned so far: the loop ends when \<^verbatim>\<open>rows.Next()\<close> returns \<^verbatim>\<open>false\<close> and
  \<^verbatim>\<open>rows.Err()\<close> is not read.
\<close>

theorem RunQuerySlice_iteration_error:
  "RunQuerySlice (\<lambda>q. Inr \<lparr>fetched = [1, 2], rows_Err = Some DeadlineExceeded\<rparr>)
     (\<lambda>r z. (None, r + z)) (10::nat) ''SELECT 1'' [99] = (None, [11, 12])"
  by (simp add: RunQuerySlice_def)

text \<open>
  C3. When the driver fails a mutation with a \<open>PgError\<close>, \<^verbatim>\<open>RunCUD\<close> returns
  \<open>ErrDBDuplicatedEntry\<close> exactly when the code is \<open>uniqueViolation\<close> and
  \<open>ErrUndefinedTable\<close> exactly when the code is \<open>undefinedTable\<close>, whatever the message; an
  error of any other type is returned as it is, whatever its text; and a statement that
  the driver executes returns no error, whatever its result, zero affected rows included.
\<close>

theorem RunCUD_classification:
  "(NamedExecContext query data = Inl (PgError pe) \<longrightarrow>
      (RunCUD NamedExecContext query data = Some ErrDBDuplicatedEntry
         \<longleftrightarrow> Code pe = uniqueViolation) \<and>
      (RunCUD NamedExecContext query data = Some ErrUndefinedTable
         \<longleftrightarrow> Code pe = undefinedTable)) \<and>
   (NamedExecContext query data = Inl err \<and> (\<forall>pe. err \<noteq> PgError pe) \<longrightarrow>
      RunCUD NamedExecContext query data = Some err) \<and>
   (NamedExecContext query data = Inr res \<longrightarrow> RunCUD NamedExecContext query data = None)"
  by (auto simp: RunCUD_def uniqueViolation_def undefinedTable_def split: error.splits)

theorem RunCUD_classification_witness:
  "RunCUD (\<lambda>q (d::unit). Inl (PgError \<lparr>Severity = ''ERROR'', Code = ''23505'',
       Message = ''relation does not exist''\<rparr>)) ''INSERT'' () = Some ErrDBDuplicatedEntry \<and>
   RunCUD (\<lambda>q (d::unit). Inl (PgError \<lparr>Severity = ''ERROR'', Code = ''42P01'',
       Message = ''duplicate key value''\<rparr>)) ''INSERT'' () = Some ErrUndefinedTable \<and>
   RunCUD (\<lambda>q (d::unit). Inl (New ''duplicate key value'')) ''INSERT'' ()
     = Some (New ''duplicate key value'') \<and>
   RunCUD (\<lambda>q (d::unit). Inr \<lparr>LastInsertId = 0, RowsAffected = 0\<rparr>) ''DELETE'' () = None"
  using
    RunCUD_classification [where NamedExecContext = "\<lambda>q (d::unit). Inl (PgError
        \<lparr>Severity = ''ERROR'', Code = ''23505'', Message = ''relation does not exist''\<rparr>)"
      and query = "''INSERT''" and data = "()"
      and pe = "\<lparr>Severity = ''ERROR'', Code = ''23505'', Message = ''relation does not exist''\<rparr>"]
    RunCUD_classification [where NamedExecContext = "\<lambda>q (d::unit). Inl (PgError
        \<lparr>Severity = ''ERROR'', Code = ''42P01'', Message = ''duplicate key value''\<rparr>)"
      and query = "''INSERT''" and data = "()"
      and pe = "\<lparr>Severity = ''ERROR'', Code = ''42P01'', Message = ''duplicate key value''\<rparr>"]
    RunCUD_classification [where NamedExecContext = "\<lambda>q (d::unit). Inl (New ''duplicate key value'')"
      and query = "''INSERT''" and data = "()" and err = "New ''duplicate key value''"]
    RunCUD_classification [where NamedExecContext =
        "\<lambda>q (d::unit). Inr \<lparr>LastInsertId = 0, RowsAffected = 0\<rparr>"
      and query = "''DELETE''" and data = "()" and res = "\<lparr>LastInsertId = 0, RowsAffected = 0\<rparr>"]
  by (simp add: uniqueViolation_def undefinedTable_def)

text \<open>
  C7, as the code has it. When the query call itself fails, before any row is read,
  \<^verbatim>\<open>RunQuery\<close> and \<^verbatim>\<open>RunQuerySlice\<close> return \<open>ErrUndefinedTable\<close> for a \<open>PgError\<close> whose
  code is \<open>undefinedTable\<close>, and for every other error, a \<open>PgError\<close> with the code
  \<open>uniqueViolation\<close> included, the driver's error itself, not wrapped.
\<close>

theorem query_error_translation:
  assumes "NamedQueryContext query = Inl err"
  shows "((\<exists>pe. err = PgError pe \<and> Code pe = undefinedTable) \<longrightarrow>
            fst (RunQuery NamedQueryContext StructScan query dest) = Some ErrUndefinedTable \<and>
            fst (RunQuerySlice NamedQueryContext StructScan' zero query dest')
              = Some ErrUndefinedTable) \<and>
         (\<not> (\<exists>pe. err = PgError pe \<and> Code pe = undefinedTable) \<longrightarrow>
            fst (RunQuery NamedQueryContext StructScan query dest) = Some err \<and>
            fst (RunQuerySlice NamedQueryContext StructScan' zero query dest') = Some err)"
  unfolding RunQuery_def RunQuerySlice_def using assms
  by (auto simp: translate_read_error)

theorem query_error_translation_witness:
  "fst (RunQuery
     (\<lambda>q. Inl (PgError \<lparr>Severity = ''ERROR'', Code = ''42P01'', Message = ''no table''\<rparr>))
     (\<lambda>(r::nat) d. (None, r)) ''SELECT 1'' (7::nat)) = Some ErrUndefinedTable \<and>
   fst (RunQuerySlice
     (\<lambda>q. Inl (PgError \<lparr>Severity = ''ERROR'', Code = ''23505'', Message = ''dup''\<rparr>))
     (\<lambda>(r::nat) z. (None, r)) (0::nat) ''INSERT'' [5])
     = Some (PgError \<lparr>Severity = ''ERROR'', Code = ''23505'', Message = ''dup''\<rparr>)"
  using
    query_error_translation [where NamedQueryContext =
        "\<lambda>q. Inl (PgError \<lparr>Severity = ''ERROR'', Code = ''42P01'', Message = ''no table''\<rparr>)"
      and query = "''SELECT 1''"
      and err = "PgError \<lparr>Severity = ''ERROR'', Code = ''42P01'', Message = ''no table''\<rparr>"
      and StructScan = "\<lambda>(r::nat) d. (None, r)" and dest = "7::nat"
      and StructScan' = "\<lambda>(r::nat) z. (None, r)" and zero = "0::nat" and dest' = "[5]"]
    query_error_translation [where NamedQueryContext =
        "\<lambda>q. Inl (PgError \<lparr>Severity = ''ERROR'', Code = ''23505'', Message = ''dup''\<rparr>)"
      and query = "''INSERT''"
      and err = "PgError \<lparr>Severity = ''ERROR'', Code = ''23505'', Message = ''dup''\<rparr>"
      and StructScan = "\<lambda>(r::nat) d. (None, r)" and dest = "7::nat"
      and StructScan' = "\<lambda>(r::nat) z. (None, r)" and zero = "0::nat" and dest' = "[5]"]
  by (simp add: undefinedTable_def)

text \<open>
  The claim as the specification words it fails twice. A \<open>PgError\<close> with the code
  \<open>uniqueViolation\<close> from a query call is returned as it is, not as
  \<open>ErrDBDuplicatedEntry\<close>; and an error of another kind is returned as it is, not wrapped.
\<close>

theorem query_unique_violation_counterexample:
  "fst (RunQuery
         (\<lambda>q. Inl (PgError \<lparr>Severity = ''ERROR'', Code = uniqueViolation,
                             Message = ''duplicate key value''\<rparr>))
         (\<lambda>(r::nat) (d::nat). (None, r)) ''INSERT'' 0)
     = Some (PgError \<lparr>Severity = ''ERROR'', Code = uniqueViolation,
                      Message = ''duplicate key value''\<rparr>) \<and>
   fst (RunQuery
         (\<lambda>q. Inl (PgError \<lparr>Severity = ''ERROR'', Code = uniqueViolation,
                             Message = ''duplicate key value''\<rparr>))
         (\<lambda>(r::nat) (d::nat). (None, r)) ''INSERT'' 0) \<noteq> Some ErrDBDuplicatedEntry \<and>
   fst (RunQuerySlice (\<lambda>q. Inl (New ''connection reset by peer''))
         (\<lambda>(r::nat) (z::nat). (None, r)) 0 ''SELECT 1'' [5])
     = Some (New ''connection reset by peer'')"
  by (simp add: RunQuery_def RunQuerySlice_def undefinedTable_def uniqueViolation_def)

section \<open>Properties of opening the pool\<close>

text \<open>
  C5. With TLS enabled and one of the three certificate fields empty, \<^verbatim>\<open>Open\<close> returns
  the configuration error, whatever the library functions and the server would do, and
  has no event: no target is built and \<^verbatim>\<open>sqlx.Open\<close> is not called.
\<close>

theorem Open_rejects_incomplete_TLS:
  assumes "EnableTLS cfg"
    and "CACert cfg = [] \<or> ClientCert cfg = [] \<or> ClientKey cfg = []"
  shows "Open Encode URL_String sqlx_Open cfg now
           = Some (Inl (New ''SSL certificates not properly configured''), [])"
  using assms by (auto simp: Open_def getSSLMode_def)

theorem Open_rejects_incomplete_TLS_witness:
  "EnableTLS cfg_no_key \<and> ClientKey cfg_no_key = [] \<and>
   Open (\<lambda>q. ''x'') (\<lambda>u. ''postgres://db'') (\<lambda>drv target. Inl (New ''unreachable''))
     cfg_no_key 0
     = Some (Inl (New ''SSL certificates not properly configured''), [])"
  using Open_rejects_incomplete_TLS [where cfg = cfg_no_key and Encode = "\<lambda>q. ''x''"
      and URL_String = "\<lambda>u. ''postgres://db''"
      and sqlx_Open = "\<lambda>drv target. Inl (New ''unreachable'')" and now = 0]
  by (simp add: cfg_no_key_def)

section \<open>Properties of the rendering\<close>

lemma Replace1_prefix:
  "old \<notin> set pre \<Longrightarrow> Replace1 (pre @ s) old new = pre @ Replace1 s old new"
  by (induction pre) auto

lemma substitute_prefix:
  "CHR ''?'' \<notin> set pre \<Longrightarrow> substitute (pre @ s) ps = pre @ substitute s ps"
  by (induction ps arbitrary: s) (auto simp: Replace1_prefix)

lemma substitute_Nil: "substitute [] ps = []"
  by (induction ps) auto

lemma spec_expand_no_values: "spec_expand q [] = q"
  by (induction q) auto

lemma substitute_no_placeholder:
  "CHR ''?'' \<notin> set s \<Longrightarrow> substitute s ps = s"
  using substitute_prefix [of s "[]" ps] by (simp add: substitute_Nil)

lemma substitute_spec_expand:
  "\<forall>p\<in>set ps. CHR ''?'' \<notin> set (render p) \<Longrightarrow>
   substitute q ps = spec_expand q (map render ps)"
proof (induction q arbitrary: ps)
  case Nil
  then show ?case by (simp add: substitute_Nil)
next
  case (Cons c q)
  show ?case
  proof (cases ps)
    case Nil
    then show ?thesis by (simp add: spec_expand_no_values)
  next
    case (Cons p ps')
    show ?thesis
    proof (cases "c = CHR ''?''")
      case True
      have "substitute (c # q) ps = substitute (render p @ q) ps'"
        using True Cons by simp
      also have "\<dots> = render p @ substitute q ps'"
        using Cons.prems Cons by (simp add: substitute_prefix)
      also have "\<dots> = render p @ spec_expand q (map render ps')"
        using Cons.IH [of ps'] Cons.prems Cons by simp
      finally show ?thesis using True Cons by simp
    next
      case False
      have "substitute (c # q) ps = c # substitute q ps"
        using substitute_prefix [of "[c]" q ps] False by simp
      then show ?thesis using False Cons.IH [of ps] Cons.prems by simp
    qed
  qed
qed

lemma ReplaceAll_delete: "ReplaceAll s old [] = filter (\<lambda>c. c \<noteq> old) s"
  by (induction s) auto

lemma ReplaceAll_single: "ReplaceAll s old [new] = map (\<lambda>c. if c = old then new else c) s"
  by (induction s) auto

lemma set_Trim: "set (Trim s c) \<subseteq> set s"
  unfolding Trim_def by (metis set_rev set_dropWhileD subsetI)

lemma Trim_ends:
  assumes "Trim s c \<noteq> []"
  shows "hd (Trim s c) \<noteq> c \<and> last (Trim s c) \<noteq> c"
proof -
  define P where "P = (\<lambda>x. x = c)"
  define xs where "xs = dropWhile P s"
  define ys where "ys = dropWhile P (rev xs)"
  have t: "Trim s c = rev ys"
    by (simp add: Trim_def xs_def ys_def P_def)
  with assms have ne: "ys \<noteq> []" by simp
  have "\<not> P (hd ys)"
    using ne hd_dropWhile [of P "rev xs"] by (simp add: ys_def)
  then have l: "last (Trim s c) \<noteq> c"
    using ne t by (simp add: last_rev P_def)
  have "takeWhile P (rev xs) @ ys = rev xs"
    unfolding ys_def by (rule takeWhile_dropWhile_id)
  then have "rev (takeWhile P (rev xs) @ ys) = rev (rev xs)"
    by (rule arg_cong)
  then have split: "rev ys @ rev (takeWhile P (rev xs)) = xs"
    by (simp only: rev_append rev_rev_ident)
  have "hd (rev ys @ rev (takeWhile P (rev xs))) = hd (rev ys)"
    using ne by (intro hd_append2) simp
  then have h: "hd xs = hd (rev ys)"
    by (simp only: split)
  have "xs \<noteq> []"
    using ne by (auto simp: ys_def)
  then have "\<not> P (hd xs)"
    using hd_dropWhile [of P s] by (simp add: xs_def)
  then show ?thesis
    using l t h by (simp add: P_def)
qed


lemma ParseQuery_Inr:
  "Named query args = Inr (q, params) \<Longrightarrow>
   ParseQuery Named query args
     = Trim (map (\<lambda>c. if c = newline then CHR '' '' else c)
              (filter (\<lambda>c. c \<noteq> tab) (substitute q params))) (CHR '' '')"
  by (simp add: ParseQuery_def ReplaceAll_delete ReplaceAll_single)

lemma ParseQuery_chars:
  assumes "Named query args = Inr (q, params)"
  shows "tab \<notin> set (ParseQuery Named query args) \<and> newline \<notin> set (ParseQuery Named query args)"
proof -
  let ?s = "map (\<lambda>c. if c = newline then CHR '' '' else c)
              (filter (\<lambda>c. c \<noteq> tab) (substitute q params))"
  have "tab \<notin> set ?s" by (auto simp: tab_def newline_def)
  moreover have "newline \<notin> set ?s" by (auto simp: newline_def)
  moreover have "set (ParseQuery Named query args) \<subseteq> set ?s"
    using assms set_Trim [of ?s "CHR '' ''"] by (simp add: ParseQuery_Inr)
  ultimately show ?thesis by blast
qed

text \<open>
  What holds of \<^verbatim>\<open>ParseQuery\<close> whenever \<^verbatim>\<open>sqlx.Named\<close> returns. When the resolution of
  the names fails, it returns the text of that error. When it succeeds and no rendered value holds a \<^verbatim>\<open>?\<close>,
  it returns the rendering of the specification: the values stand at the placeholders in
  their order, strings, byte sequences and UUIDs between single quotes and other values
  in their own text. Whenever the resolution succeeds, the result holds no tab and no
  newline and neither starts nor ends with a space. The query
  \<^verbatim>\<open>SELECT * FROM t WHERE id = ?\<close> with the value \<^verbatim>\<open>abc\<close> gives
  \<^verbatim>\<open>SELECT * FROM t WHERE id = 'abc'\<close>.
\<close>

theorem ParseQuery_render:
  "(Named query args = Inl err \<longrightarrow> ParseQuery Named query args = Error err) \<and>
   (Named query args = Inr (q, params) \<and> (\<forall>p\<in>set params. CHR ''?'' \<notin> set (render p)) \<longrightarrow>
      ParseQuery Named query args = spec_render q params) \<and>
   (Named query args = Inr (q, params) \<longrightarrow>
      tab \<notin> set (ParseQuery Named query args) \<and>
      newline \<notin> set (ParseQuery Named query args) \<and>
      (ParseQuery Named query args \<noteq> [] \<longrightarrow>
         hd (ParseQuery Named query args) \<noteq> CHR '' '' \<and>
         last (ParseQuery Named query args) \<noteq> CHR '' '')) \<and>
   render (PString v) = [quote] @ v @ [quote] \<and>
   render (PBytes v) = [quote] @ v @ [quote] \<and>
   render (PUUID v) = [quote] @ v @ [quote] \<and>
   render (POther v) = v \<and>
   (Named query args = Inr (''SELECT * FROM t WHERE id = ?'', [PString ''abc'']) \<longrightarrow>
      ParseQuery Named query args = ''SELECT * FROM t WHERE id = '' @ [quote] @ ''abc'' @ [quote])"
proof (intro conjI impI)
  assume "Named query args = Inl err"
  then show "ParseQuery Named query args = Error err"
    by (simp add: ParseQuery_def)
next
  assume a: "Named query args = Inr (q, params) \<and> (\<forall>p\<in>set params. CHR ''?'' \<notin> set (render p))"
  then have "substitute q params = spec_expand q (map render params)"
    by (intro substitute_spec_expand) simp
  then show "ParseQuery Named query args = spec_render q params"
    using a by (simp add: ParseQuery_Inr spec_render_def Trim_def)
next
  assume a: "Named query args = Inr (q, params)"
  show "tab \<notin> set (ParseQuery Named query args)"
    using a by (simp add: ParseQuery_chars)
  show "newline \<notin> set (ParseQuery Named query args)"
    using a by (simp add: ParseQuery_chars)
  assume ne: "ParseQuery Named query args \<noteq> []"
  have t: "ParseQuery Named query args
          = Trim (map (\<lambda>c. if c = newline then CHR '' '' else c)
              (filter (\<lambda>c. c \<noteq> tab) (substitute q params))) (CHR '' '')"
    using a by (simp add: ParseQuery_Inr)
  show "hd (ParseQuery Named query args) \<noteq> CHR '' ''"
    using ne Trim_ends unfolding t by blast
  show "last (ParseQuery Named query args) \<noteq> CHR '' ''"
    using ne Trim_ends unfolding t by blast
next
  assume "Named query args = Inr (''SELECT * FROM t WHERE id = ?'', [PString ''abc''])"
  then show "ParseQuery Named query args
      = ''SELECT * FROM t WHERE id = '' @ [quote] @ ''abc'' @ [quote]"
    by (simp add: ParseQuery_def Trim_def quote_def tab_def newline_def)
qed simp_all

theorem ParseQuery_render_witness:
  "ParseQuery (\<lambda>q (a::unit). Inr (''SELECT *'' @ [newline, tab] @ ''FROM t WHERE id = ? AND n = ? '',
       [PString ''abc'', POther ''42''])) ''q'' ()
     = ''SELECT * FROM t WHERE id = '' @ [quote] @ ''abc'' @ [quote] @ '' AND n = 42'' \<and>
   ParseQuery (\<lambda>q (a::unit). Inl (New ''could not find name id'')) ''q'' ()
     = ''could not find name id'' \<and>
   ParseQuery (\<lambda>q (a::unit). Inr (''SELECT * FROM t WHERE id = ?'', [PString ''abc''])) ''q'' ()
     = ''SELECT * FROM t WHERE id = '' @ [quote] @ ''abc'' @ [quote]"
  using
    ParseQuery_render [where Named = "\<lambda>q (a::unit). Inr (''SELECT *'' @ [newline, tab]
          @ ''FROM t WHERE id = ? AND n = ? '', [PString ''abc'', POther ''42''])"
      and query = "''q''" and args = "()"
      and q = "''SELECT *'' @ [newline, tab] @ ''FROM t WHERE id = ? AND n = ? ''"
      and params = "[PString ''abc'', POther ''42'']"]
    ParseQuery_render [where Named = "\<lambda>q (a::unit). Inl (New ''could not find name id'')"
      and query = "''q''" and args = "()" and err = "New ''could not find name id''"]
    ParseQuery_render [where Named =
        "\<lambda>q (a::unit). Inr (''SELECT * FROM t WHERE id = ?'', [PString ''abc''])"
      and query = "''q''" and args = "()"]
  by (simp add: spec_render_def quote_def tab_def newline_def)

text \<open>
  C8. The values are not always put at the placeholders in their order. On the query
  \<^verbatim>\<open>id = ? OR id = ?\<close> with the string \<^verbatim>\<open>a?\<close> and the number 7, \<^verbatim>\<open>ParseQuery\<close> returns
  \<^verbatim>\<open>id = 'a7' OR id = ?\<close>, where the rendering of the specification is
  \<^verbatim>\<open>id = 'a?' OR id = 7\<close>: the second value replaces the \<^verbatim>\<open>?\<close> inside the first value
  and the second placeholder stays.
\<close>

theorem ParseQuery_value_with_question_mark:
  "ParseQuery (\<lambda>q (a::unit). Inr (''id = ? OR id = ?'', [PString ''a?'', POther ''7''])) ''q'' ()
     = ''id = '' @ [quote] @ ''a7'' @ [quote] @ '' OR id = ?'' \<and>
   spec_render ''id = ? OR id = ?'' [PString ''a?'', POther ''7'']
     = ''id = '' @ [quote] @ ''a?'' @ [quote] @ '' OR id = 7'' \<and>
   ParseQuery (\<lambda>q (a::unit). Inr (''id = ? OR id = ?'', [PString ''a?'', POther ''7''])) ''q'' ()
     \<noteq> spec_render ''id = ? OR id = ?'' [PString ''a?'', POther ''7'']"
  by (simp add: ParseQuery_def spec_render_def Trim_def quote_def tab_def newline_def)

text \<open>
  C9. Each substitution replaces the leftmost \<^verbatim>\<open>?\<close> of the text as substituted so far.
  When the first value is a string that holds a \<^verbatim>\<open>?\<close>, the second value is put inside
  the text of the first, and the rest of the query, its next placeholder included, stays
  as it is.
\<close>

theorem substitute_into_earlier_value:
  assumes "CHR ''?'' \<notin> set pre" and "CHR ''?'' \<notin> set a"
  shows "substitute (pre @ CHR ''?'' # rest) [PString (a @ CHR ''?'' # b), p]
           = pre @ quote # a @ render p @ b @ quote # rest"
proof -
  have 1: "Replace1 (pre @ CHR ''?'' # rest) (CHR ''?'') (render (PString (a @ CHR ''?'' # b)))
             = (pre @ quote # a) @ CHR ''?'' # b @ quote # rest"
    using assms(1) by (simp add: Replace1_prefix)
  have "CHR ''?'' \<notin> set (pre @ quote # a)"
    using assms by (simp add: quote_def)
  then have 2: "Replace1 ((pre @ quote # a) @ CHR ''?'' # b @ quote # rest) (CHR ''?'') (render p)
             = (pre @ quote # a) @ render p @ b @ quote # rest"
    using Replace1_prefix [of "CHR ''?''" "pre @ quote # a" "CHR ''?'' # b @ quote # rest" "render p"]
    by simp
  show ?thesis
    by (simp only: substitute.simps 1 2) simp
qed

theorem substitute_into_earlier_value_witness:
  "substitute ''a = ? AND b = ?'' [PString ''x?z'', PString ''y'']
     = ''a = '' @ [quote] @ ''x'' @ [quote] @ ''y'' @ [quote] @ ''z'' @ [quote] @ '' AND b = ?'' \<and>
   ParseQuery (\<lambda>q (a::unit). Inr (''a = ? AND b = ?'', [PString ''x?z'', PString ''y''])) ''q'' ()
     = ''a = '' @ [quote] @ ''x'' @ [quote] @ ''y'' @ [quote] @ ''z'' @ [quote] @ '' AND b = ?''"
  using substitute_into_earlier_value [where pre = "''a = ''" and rest = "'' AND b = ?''"
      and a = "''x''" and b = "''z''" and p = "PString ''y''"]
  by (simp add: ParseQuery_def Trim_def quote_def tab_def newline_def)

section \<open>Properties of the health check\<close>

lemma wrap64_id: "- (2 ^ 63) \<le> x \<Longrightarrow> x < 2 ^ 63 \<Longrightarrow> wrap64 x = x"
  by (simp add: wrap64_def)

lemma wrap64_range: "- (2 ^ 63) \<le> wrap64 x \<and> wrap64 x < 2 ^ 63"
  by (simp add: wrap64_def)

lemma wrap64_succ_measure:
  assumes "- (2 ^ 63) \<le> a" "a < 2 ^ 63" "a \<noteq> 1"
  shows "nat ((1 - wrap64 (a + 1)) mod 2 ^ 64) < nat ((1 - a) mod 2 ^ 64)"
proof -
  have "(1 - wrap64 (a + 1)) mod 2 ^ 64 = (- a) mod 2 ^ 64"
    by (simp add: wrap64_def mod_simps)
  moreover have "(- a) mod 2 ^ 64 < (1 - a) mod 2 ^ 64"
  proof (cases "a \<le> 0")
    case True
    have "(- a) mod 2 ^ 64 = - a"
      using True assms by (intro mod_pos_pos_trivial) auto
    moreover have "(1 - a) mod 2 ^ 64 = 1 - a"
      using True assms by (intro mod_pos_pos_trivial) auto
    ultimately show ?thesis by simp
  next
    case False
    have "(- a) mod 2 ^ 64 = (- a + 2 ^ 64) mod 2 ^ 64"
      by (simp only: mod_add_self2)
    also have "\<dots> = - a + 2 ^ 64"
      using False assms by (intro mod_pos_pos_trivial) auto
    finally have 1: "(- a) mod 2 ^ 64 = - a + 2 ^ 64" .
    have "(1 - a) mod 2 ^ 64 = (1 - a + 2 ^ 64) mod 2 ^ 64"
      by (simp only: mod_add_self2)
    also have "\<dots> = 1 - a + 2 ^ 64"
      using False assms by (intro mod_pos_pos_trivial) auto
    finally show ?thesis using 1 by simp
  qed
  moreover have "0 \<le> (- a) mod (2 ^ 64 :: int)" by simp
  ultimately show ?thesis by simp
qed

lemma backoff_first: "wrap64 (wrap64 (1 * 1) * Second) = 1000000000"
  by (simp add: wrap64_def Second_def)

lemma ctx_Err_None_before:
  "deadline ctx = Some dl \<Longrightarrow> ctx_Err ctx t = None \<Longrightarrow> t < dl"
  by (cases "cancel_at ctx") (auto simp: ctx_Err_def split: if_splits)

lemma ctx_Err_mono:
  "ctx_Err ctx t = Some e \<Longrightarrow> t \<le> t' \<Longrightarrow> ctx_Err ctx t' = Some e"
  by (auto simp: ctx_Err_def split: option.splits if_splits)

lemma wf_loop: "wf (less_than <*lex*> less_than)"
  by (intro wf_lex_prod wf_less_than)

lemma ping_loop_returns:
  assumes dl: "deadline ctx = Some dl"
    and lo: "- (2 ^ 63) \<le> attempts" and hi: "attempts < 2 ^ 63"
  shows "\<exists>r now' tr'. ping_loop db ctx attempts now tr = Some (r, now', tr') \<and>
           (\<exists>res rest. tr' = tr @ Ping now res # rest) \<and>
           (r = None \<longrightarrow> (\<exists>t. fst (PingContext db ctx t) = None)) \<and>
           (\<forall>e. r = Some e \<longrightarrow>
              (\<exists>cerr perr t d pre. e = Wrap2 cerr '' : database: '' perr \<and>
                 ctx_Err ctx now' = Some cerr \<and> fst (PingContext db ctx t) = Some perr \<and>
                 tr' = pre @ [Ping t (Some perr), Sleep d]))"
  using lo hi
proof (induction "(dl - now, nat ((1 - attempts) mod 2 ^ 64))" arbitrary: attempts now tr
    rule: wf_induct_rule [OF wf_loop])
  case 1
  obtain pe took where ping: "PingContext db ctx now = (pe, took)"
    by (cases "PingContext db ctx now")
  show ?case
  proof (cases pe)
    case None
    then have "ping_loop db ctx attempts now tr = Some (None, now + took, tr @ [Ping now None])"
      using ping by (subst ping_loop.simps) simp
    moreover have "fst (PingContext db ctx now) = None"
      using ping None by simp
    ultimately show ?thesis by blast
  next
    case (Some pingError)
    define d where "d = wrap64 (wrap64 (attempts * 1) * Second)"
    define now' where "now' = now + took + nat d"
    define tr' where "tr' = tr @ [Ping now (Some pingError), Sleep d]"
    show ?thesis
    proof (cases "ctx_Err ctx now'")
      case (Some cerr)
      have "ping_loop db ctx attempts now tr
              = Some (Some (Wrap2 cerr '' : database: '' pingError), now', tr')"
        using ping \<open>pe = Some pingError\<close> Some
        by (subst ping_loop.simps) (simp add: d_def now'_def tr'_def Let_def)
      moreover have "fst (PingContext db ctx now) = Some pingError"
        using ping \<open>pe = Some pingError\<close> by simp
      moreover have "tr' = tr @ Ping now (Some pingError) # [Sleep d]"
        by (simp add: tr'_def)
      ultimately show ?thesis
        using Some tr'_def by blast
    next
      case None
      have step: "ping_loop db ctx attempts now tr
              = ping_loop db ctx (wrap64 (attempts + 1)) now' tr'"
        using ping \<open>pe = Some pingError\<close> None
        by (subst ping_loop.simps) (simp add: d_def now'_def tr'_def Let_def)
      have before: "now' < dl"
        using dl None by (rule ctx_Err_None_before)
      have "now \<le> now'" by (simp add: now'_def)
      have dec: "((dl - now', nat ((1 - wrap64 (attempts + 1)) mod 2 ^ 64)),
                  (dl - now, nat ((1 - attempts) mod 2 ^ 64)))
                 \<in> less_than <*lex*> less_than"
      proof (cases "now' = now")
        case True
        then have "nat d = 0" by (simp add: now'_def)
        then have "attempts \<noteq> 1"
          using backoff_first by (auto simp: d_def)
        then show ?thesis
          using True wrap64_succ_measure [OF "1.prems"] by simp
      next
        case False
        then have "dl - now' < dl - now"
          using \<open>now \<le> now'\<close> before by arith
        then show ?thesis by simp
      qed
      have "\<exists>r now'' tr''.
              ping_loop db ctx (wrap64 (attempts + 1)) now' tr' = Some (r, now'', tr'') \<and>
              (\<exists>res rest. tr'' = tr' @ Ping now' res # rest) \<and>
              (r = None \<longrightarrow> (\<exists>t. fst (PingContext db ctx t) = None)) \<and>
              (\<forall>e. r = Some e \<longrightarrow>
                (\<exists>cerr perr t d pre. e = Wrap2 cerr '' : database: '' perr \<and>
                   ctx_Err ctx now'' = Some cerr \<and> fst (PingContext db ctx t) = Some perr \<and>
                   tr'' = pre @ [Ping t (Some perr), Sleep d]))"
        using wrap64_range [of "attempts + 1"] by (intro "1.hyps" [OF dec]) simp_all
      then obtain r now'' tr'' where
        run: "ping_loop db ctx (wrap64 (attempts + 1)) now' tr' = Some (r, now'', tr'')"
        and pre: "\<exists>res rest. tr'' = tr' @ Ping now' res # rest"
        and brk: "r = None \<longrightarrow> (\<exists>t. fst (PingContext db ctx t) = None)"
        and ret: "\<forall>e. r = Some e \<longrightarrow>
              (\<exists>cerr perr t d pre. e = Wrap2 cerr '' : database: '' perr \<and>
                 ctx_Err ctx now'' = Some cerr \<and> fst (PingContext db ctx t) = Some perr \<and>
                 tr'' = pre @ [Ping t (Some perr), Sleep d])"
        by blast
      from pre obtain res rest where "tr'' = tr' @ Ping now' res # rest" by blast
      then have "tr'' = tr @ Ping now (Some pingError) # (Sleep d # Ping now' res # rest)"
        by (simp add: tr'_def)
      then have "\<exists>res rest. tr'' = tr @ Ping now res # rest" by blast
      then show ?thesis
        unfolding step using run brk ret by blast
    qed
  qed
qed


lemma sleeps_append: "sleeps (xs @ ys) = sleeps xs @ sleeps ys"
  by (induction xs rule: sleeps.induct) simp_all

lemma backoff_small:
  assumes "1 \<le> a" and "(a - 1) * Second \<le> 2 ^ 62"
  shows "wrap64 (wrap64 a * Second) = a * Second" and "wrap64 (a + 1) = a + 1"
proof -
  have a: "a \<le> 4611686019" using assms by (simp add: Second_def)
  have "wrap64 a = a" using assms(1) a by (simp add: wrap64_id)
  moreover have "wrap64 (a * Second) = a * Second"
    using assms(1) a by (intro wrap64_id) (simp_all add: Second_def)
  ultimately show "wrap64 (wrap64 a * Second) = a * Second" by simp
  show "wrap64 (a + 1) = a + 1" using assms(1) a by (simp add: wrap64_id)
qed

lemma ping_loop_backoff:
  assumes dl: "deadline ctx = Some dl"
    and "1 \<le> attempts" and "(attempts - 1) * Second + int (dl - now) \<le> 2 ^ 62"
  shows "\<exists>r now' tr' n. ping_loop db ctx attempts now tr = Some (r, now', tr') \<and>
           sleeps tr' = sleeps tr @ map (\<lambda>k. k * Second) [attempts..attempts + int n - 1]"
  using assms(2,3)
proof (induction "dl - now" arbitrary: attempts now tr rule: less_induct)
  case less
  obtain pe took where ping: "PingContext db ctx now = (pe, took)"
    by (cases "PingContext db ctx now")
  show ?case
  proof (cases pe)
    case None
    then have "ping_loop db ctx attempts now tr = Some (None, now + took, tr @ [Ping now None])"
      using ping by (subst ping_loop.simps) simp
    moreover have "sleeps (tr @ [Ping now None])
        = sleeps tr @ map (\<lambda>k. k * Second) [attempts..attempts + int 0 - 1]"
      by (simp add: sleeps_append)
    ultimately show ?thesis by blast
  next
    case (Some pingError)
    have small: "(attempts - 1) * Second \<le> 2 ^ 62"
      using less.prems by simp
    note bo = backoff_small [OF less.prems(1) small]
    define now' where "now' = now + took + nat (attempts * Second)"
    define tr' where "tr' = tr @ [Ping now (Some pingError), Sleep (attempts * Second)]"
    have str': "sleeps tr' = sleeps tr @ [attempts * Second]"
      by (simp add: tr'_def sleeps_append)
    show ?thesis
    proof (cases "ctx_Err ctx now'")
      case (Some cerr)
      have "ping_loop db ctx attempts now tr
              = Some (Some (Wrap2 cerr '' : database: '' pingError), now', tr')"
        using ping \<open>pe = Some pingError\<close> Some
        by (subst ping_loop.simps) (simp add: bo now'_def tr'_def Let_def)
      moreover have "sleeps tr'
          = sleeps tr @ map (\<lambda>k. k * Second) [attempts..attempts + int 1 - 1]"
        by (simp add: str')
      ultimately show ?thesis by blast
    next
      case None
      have step: "ping_loop db ctx attempts now tr = ping_loop db ctx (attempts + 1) now' tr'"
        using ping \<open>pe = Some pingError\<close> None
        by (subst ping_loop.simps) (simp add: bo now'_def tr'_def Let_def)
      have before: "now' < dl"
        using dl None by (rule ctx_Err_None_before)
      have pos: "0 < attempts * Second"
        using less.prems(1) by (simp add: Second_def)
      then have adv: "int now' = int now + int took + attempts * Second"
        by (simp add: now'_def)
      have dec: "dl - now' < dl - now"
        using before adv pos by linarith
      have inv: "(attempts + 1 - 1) * Second + int (dl - now') \<le> 2 ^ 62"
      proof -
        have "int (dl - now') = int dl - int now'" using before by simp
        moreover have "int dl - int now \<le> int (dl - now)" by simp
        moreover have "0 \<le> (attempts - 1) * Second"
          using less.prems(1) by (simp add: Second_def)
        ultimately show ?thesis using adv less.prems(2) by simp
      qed
      have "\<exists>r now'' tr'' n. ping_loop db ctx (attempts + 1) now' tr' = Some (r, now'', tr'') \<and>
              sleeps tr'' = sleeps tr' @ map (\<lambda>k. k * Second) [attempts + 1..attempts + 1 + int n - 1]"
        using less.prems(1) inv by (intro less.hyps [OF dec]) simp_all
      then obtain r now'' tr'' n where
        run: "ping_loop db ctx (attempts + 1) now' tr' = Some (r, now'', tr'')"
        and sl: "sleeps tr'' = sleeps tr' @ map (\<lambda>k. k * Second) [attempts + 1..attempts + 1 + int n - 1]"
        by blast
      have "[attempts..attempts + int (Suc n) - 1] = attempts # [attempts + 1..attempts + 1 + int n - 1]"
        by (subst upto_rec1) (simp_all add: add.commute)
      then have "sleeps tr'' = sleeps tr @ map (\<lambda>k. k * Second) [attempts..attempts + int (Suc n) - 1]"
        using sl str' by simp
      then show ?thesis
        unfolding step using run by blast
    qed
  qed
qed


lemma with_default_deadline_None:
  "deadline ctx = None \<Longrightarrow>
   with_default_deadline ctx now = ctx\<lparr>deadline := Some (now + 5000000000)\<rparr>"
  by (simp add: with_default_deadline_def WithTimeout_def wrap64_def Second_def)

lemma with_default_deadline_Some:
  "\<exists>dl. deadline (with_default_deadline ctx now) = Some dl"
  by (cases "deadline ctx") (simp_all add: with_default_deadline_None, simp add: with_default_deadline_def)

lemma ctx_Err_with_default:
  assumes "ctx_Err ctx now = Some e"
  shows "ctx_Err (with_default_deadline ctx now) now = Some e"
proof (cases "deadline ctx")
  case None
  with assms obtain a where "cancel_at ctx = Some a" "a \<le> now" "e = Canceled"
    by (cases "cancel_at ctx") (auto simp: ctx_Err_def split: if_splits)
  then show ?thesis
    by (simp add: with_default_deadline_None [OF None] ctx_Err_def)
next
  case (Some d)
  then show ?thesis using assms by (simp add: with_default_deadline_def)
qed

lemma StatusCheck_after_loop:
  assumes "ping_loop db (with_default_deadline ctx now) 1 now [] = Some (r, now', tr')"
  shows "\<exists>e t tr. StatusCheck ctx db now = Some (e, t, tr) \<and> sleeps tr = sleeps tr' \<and>
           (\<exists>rest. tr = tr' @ rest) \<and> (r \<noteq> None \<longrightarrow> e = r \<and> t = now' \<and> tr = tr')"
proof (cases r)
  case (Some err)
  then show ?thesis using assms by (simp add: StatusCheck_def)
next
  case None
  show ?thesis
  proof (cases "ctx_Err (with_default_deadline ctx now) now'")
    case (Some cerr)
    then show ?thesis using assms None by (simp add: StatusCheck_def)
  next
    case none: None
    obtain res took where "QueryRowScan db (with_default_deadline ctx now) now' = (res, took)"
      by (cases "QueryRowScan db (with_default_deadline ctx now) now'")
    then show ?thesis using assms None none by (simp add: StatusCheck_def sleeps_append)
  qed
qed

lemma StatusCheck_returns: "\<exists>e t tr. StatusCheck ctx db now = Some (e, t, tr)"
proof -
  obtain dl where "deadline (with_default_deadline ctx now) = Some dl"
    using with_default_deadline_Some by blast
  then have "\<exists>r now' tr'. ping_loop db (with_default_deadline ctx now) 1 now [] = Some (r, now', tr')"
    using ping_loop_returns [of "with_default_deadline ctx now" dl 1 db now "[]"] by auto
  then show ?thesis using StatusCheck_after_loop by blast
qed

lemma ping_loop_down:
  "ping_loop db_down \<lparr>deadline = Some 5000000000, cancel_at = None\<rparr> 1 0 []
     = Some (Some (Wrap2 DeadlineExceeded '' : database: '' (New ''connection refused'')),
             6000000000,
             [Ping 0 (Some (New ''connection refused'')), Sleep 1000000000,
              Ping 1000000000 (Some (New ''connection refused'')), Sleep 2000000000,
              Ping 3000000000 (Some (New ''connection refused'')), Sleep 3000000000])"
  apply (subst ping_loop.simps)
  apply (simp add: db_down_def ctx_Err_def wrap64_def Second_def)
  apply (subst ping_loop.simps)
  apply (simp add: db_down_def ctx_Err_def wrap64_def Second_def)
  apply (subst ping_loop.simps)
  apply (simp add: db_down_def ctx_Err_def wrap64_def Second_def)
  done

text \<open>
  C4. A context without a deadline is given the deadline five seconds after the call.
  When every probe fails, \<^verbatim>\<open>StatusCheck\<close> returns, for every context and every starting
  time: its error wraps the error of the context at the time of the return and the error
  of the last probe, and its last two events are that probe and a sleep. When the deadline
  in force is no more than \<open>2 ^ 62\<close> nanoseconds after the call, as the default one is, the
  sleeps are of 1, 2, 3, ... seconds in this order.
\<close>

theorem StatusCheck_failing_probe:
  assumes "\<forall>c t. fst (PingContext db c t) \<noteq> None"
  shows "(deadline ctx = None \<longrightarrow>
            with_default_deadline ctx now = ctx\<lparr>deadline := Some (now + 5000000000)\<rparr>) \<and>
         (\<exists>cerr perr now' pre t d.
            StatusCheck ctx db now
              = Some (Some (Wrap2 cerr '' : database: '' perr), now',
                      pre @ [Ping t (Some perr), Sleep d]) \<and>
            ctx_Err (with_default_deadline ctx now) now' = Some cerr \<and>
            fst (PingContext db (with_default_deadline ctx now) t) = Some perr) \<and>
         (\<forall>dl. deadline (with_default_deadline ctx now) = Some dl \<and> int dl \<le> int now + 2 ^ 62 \<longrightarrow>
            (\<exists>e now' tr n. StatusCheck ctx db now = Some (e, now', tr) \<and>
               sleeps tr = map (\<lambda>k. k * Second) [1..int n]))"
proof (intro conjI allI impI)
  assume "deadline ctx = None"
  then show "with_default_deadline ctx now = ctx\<lparr>deadline := Some (now + 5000000000)\<rparr>"
    by (rule with_default_deadline_None)
next
  let ?c = "with_default_deadline ctx now"
  obtain dl where dl: "deadline ?c = Some dl"
    using with_default_deadline_Some by blast
  have "\<exists>r now' tr'. ping_loop db ?c 1 now [] = Some (r, now', tr') \<and>
           (\<exists>res rest. tr' = [] @ Ping now res # rest) \<and>
           (r = None \<longrightarrow> (\<exists>t. fst (PingContext db ?c t) = None)) \<and>
           (\<forall>e. r = Some e \<longrightarrow>
              (\<exists>cerr perr t d pre. e = Wrap2 cerr '' : database: '' perr \<and>
                 ctx_Err ?c now' = Some cerr \<and> fst (PingContext db ?c t) = Some perr \<and>
                 tr' = pre @ [Ping t (Some perr), Sleep d]))"
    by (rule ping_loop_returns [OF dl]) simp_all
  then obtain r now' tr' where
    run: "ping_loop db ?c 1 now [] = Some (r, now', tr')"
    and brk: "r = None \<longrightarrow> (\<exists>t. fst (PingContext db ?c t) = None)"
    and ret: "\<forall>e. r = Some e \<longrightarrow>
              (\<exists>cerr perr t d pre. e = Wrap2 cerr '' : database: '' perr \<and>
                 ctx_Err ?c now' = Some cerr \<and> fst (PingContext db ?c t) = Some perr \<and>
                 tr' = pre @ [Ping t (Some perr), Sleep d])"
    by blast
  from brk assms obtain e where e: "r = Some e" by (cases r) auto
  with ret obtain cerr perr t d pre where
    "e = Wrap2 cerr '' : database: '' perr" "ctx_Err ?c now' = Some cerr"
    "fst (PingContext db ?c t) = Some perr" "tr' = pre @ [Ping t (Some perr), Sleep d]"
    by blast
  moreover have "StatusCheck ctx db now = Some (Some e, now', tr')"
    using StatusCheck_after_loop [OF run] e by auto
  ultimately show "\<exists>cerr perr now' pre t d.
            StatusCheck ctx db now
              = Some (Some (Wrap2 cerr '' : database: '' perr), now',
                      pre @ [Ping t (Some perr), Sleep d]) \<and>
            ctx_Err ?c now' = Some cerr \<and> fst (PingContext db ?c t) = Some perr"
    by blast
next
  fix dl
  let ?c = "with_default_deadline ctx now"
  assume a: "deadline ?c = Some dl \<and> int dl \<le> int now + 2 ^ 62"
  then have "int (dl - now) \<le> 2 ^ 62"
    by (cases "now \<le> dl") simp_all
  then have "(1 - 1) * Second + int (dl - now) \<le> 2 ^ 62" by simp
  then have "\<exists>r now' tr' n. ping_loop db ?c 1 now [] = Some (r, now', tr') \<and>
           sleeps tr' = sleeps [] @ map (\<lambda>k. k * Second) [1..1 + int n - 1]"
    using a by (intro ping_loop_backoff) simp_all
  then obtain r now' tr' n where
    run: "ping_loop db ?c 1 now [] = Some (r, now', tr')"
    and sl: "sleeps tr' = map (\<lambda>k. k * Second) [1..int n]"
    by auto
  show "\<exists>e now' tr n. StatusCheck ctx db now = Some (e, now', tr) \<and>
               sleeps tr = map (\<lambda>k. k * Second) [1..int n]"
    using StatusCheck_after_loop [OF run] sl by metis
qed

theorem StatusCheck_failing_probe_witness:
  "(\<forall>c t. fst (PingContext db_down c t) \<noteq> None) \<and>
   StatusCheck Background db_down 0
     = Some (Some (Wrap2 DeadlineExceeded '' : database: '' (New ''connection refused'')),
             6000000000,
             [Ping 0 (Some (New ''connection refused'')), Sleep 1000000000,
              Ping 1000000000 (Some (New ''connection refused'')), Sleep 2000000000,
              Ping 3000000000 (Some (New ''connection refused'')), Sleep 3000000000])"
  using StatusCheck_failing_probe [where db = db_down and ctx = Background and now = 0]
    ping_loop_down
  by (simp add: StatusCheck_def with_default_deadline_def WithTimeout_def Background_def
      wrap64_def Second_def db_down_def)

text \<open>
  C10. On a context that is cancelled or past its deadline at the time of the call,
  \<^verbatim>\<open>StatusCheck\<close> still starts with a probe; when that probe fails, it sleeps one second
  and then returns an error that wraps the error of the context and the error of the
  probe.
\<close>

theorem StatusCheck_done_context:
  assumes "ctx_Err ctx now = Some cerr"
  shows "(\<exists>e now' res tr. StatusCheck ctx db now = Some (e, now', Ping now res # tr)) \<and>
         (\<forall>perr took. PingContext db (with_default_deadline ctx now) now = (Some perr, took) \<longrightarrow>
            StatusCheck ctx db now
              = Some (Some (Wrap2 cerr '' : database: '' perr), now + took + 1000000000,
                      [Ping now (Some perr), Sleep Second]))"
proof (intro conjI allI impI)
  let ?c = "with_default_deadline ctx now"
  obtain dl where dl: "deadline ?c = Some dl"
    using with_default_deadline_Some by blast
  have "\<exists>r now' tr'. ping_loop db ?c 1 now [] = Some (r, now', tr') \<and>
           (\<exists>res rest. tr' = [] @ Ping now res # rest) \<and>
           (r = None \<longrightarrow> (\<exists>t. fst (PingContext db ?c t) = None)) \<and>
           (\<forall>e. r = Some e \<longrightarrow>
              (\<exists>cerr perr t d pre. e = Wrap2 cerr '' : database: '' perr \<and>
                 ctx_Err ?c now' = Some cerr \<and> fst (PingContext db ?c t) = Some perr \<and>
                 tr' = pre @ [Ping t (Some perr), Sleep d]))"
    by (rule ping_loop_returns [OF dl]) simp_all
  then obtain r now' tr' res rest where
    run: "ping_loop db ?c 1 now [] = Some (r, now', tr')"
    and pre: "tr' = Ping now res # rest"
    by auto
  from StatusCheck_after_loop [OF run] obtain e t tr rest' where
    "StatusCheck ctx db now = Some (e, t, tr)" "tr = tr' @ rest'"
    by blast
  then have "StatusCheck ctx db now = Some (e, t, Ping now res # (rest @ rest'))"
    using pre by simp
  then show "\<exists>e now' res tr. StatusCheck ctx db now = Some (e, now', Ping now res # tr)"
    by blast
next
  fix perr took
  let ?c = "with_default_deadline ctx now"
  assume ping: "PingContext db ?c now = (Some perr, took)"
  have "ctx_Err ?c now = Some cerr"
    using assms by (rule ctx_Err_with_default)
  then have expired: "ctx_Err ?c (now + took + 1000000000) = Some cerr"
    by (rule ctx_Err_mono) simp
  have "ping_loop db ?c 1 now []
          = Some (Some (Wrap2 cerr '' : database: '' perr), now + took + 1000000000,
                  [Ping now (Some perr), Sleep Second])"
    using ping expired
    by (subst ping_loop.simps) (simp add: wrap64_def Second_def)
  then show "StatusCheck ctx db now
              = Some (Some (Wrap2 cerr '' : database: '' perr), now + took + 1000000000,
                      [Ping now (Some perr), Sleep Second])"
    using StatusCheck_after_loop by fastforce
qed


theorem StatusCheck_done_context_witness:
  "ctx_Err \<lparr>deadline = Some 10, cancel_at = None\<rparr> 20 = Some DeadlineExceeded \<and>
   StatusCheck \<lparr>deadline = Some 10, cancel_at = None\<rparr> db_down 20
     = Some (Some (Wrap2 DeadlineExceeded '' : database: '' (New ''connection refused'')),
             1000000020,
             [Ping 20 (Some (New ''connection refused'')), Sleep 1000000000])"
  using StatusCheck_done_context [where ctx = "\<lparr>deadline = Some 10, cancel_at = None\<rparr>"
      and now = 20 and cerr = DeadlineExceeded and db = db_down]
  by (simp add: ctx_Err_def with_default_deadline_def db_down_def Second_def)

section \<open>Properties of the connection target\<close>

lemma open_values_lookup:
  "open_values cfg m ''sslmode'' = Some [m]"
  "open_values cfg m ''timezone'' = Some [''utc'']"
  "open_values cfg m ''application_name'' = Some [ApplicationName cfg]"
  "open_values cfg m ''sslrootcert'' = (if EnableTLS cfg then Some [CACert cfg] else None)"
  "open_values cfg m ''sslcert'' = (if EnableTLS cfg then Some [ClientCert cfg] else None)"
  "open_values cfg m ''sslkey'' = (if EnableTLS cfg then Some [ClientKey cfg] else None)"
  "open_values cfg m ''search_path'' = (if Schema cfg = [] then None else Some [Schema cfg])"
  by (simp_all add: open_values_def Set_value_def Let_def)

lemma getSSLMode_Inr:
  "getSSLMode cfg = Inr m \<Longrightarrow>
     m = (if EnableTLS cfg then ''require'' else ''disable'') \<and>
     (EnableTLS cfg \<longrightarrow> CACert cfg \<noteq> [] \<and> ClientCert cfg \<noteq> [] \<and> ClientKey cfg \<noteq> [])"
  by (auto simp: getSSLMode_def split: if_splits)

lemma Open_returns:
  assumes "getSSLMode cfg = Inr m"
  shows "\<exists>res tr. Open Encode URL_String sqlx_Open cfg now
           = Some (res, OpenPool ''pgx'' (URL_String (open_url Encode cfg m)) # tr)"
proof (cases "sqlx_Open ''pgx'' (URL_String (open_url Encode cfg m))")
  case (Inl err)
  then show ?thesis using assms by (simp add: Open_def)
next
  case (Inr db0)
  define db where "db = db0\<lparr>maxIdleConns := MaxIdleConns cfg,
                                maxOpenConns := MaxOpenConns cfg,
                                connMaxIdleTime := IdleConnTimeout cfg\<rparr>"
  obtain e t tr where
    "StatusCheck (WithTimeout Background (wrap64 (Second * 5)) now) db now = Some (e, t, tr)"
    using StatusCheck_returns by blast
  then show ?thesis
    using assms Inr by (cases e) (simp_all add: Open_def db_def)
qed

text \<open>
  C6. For a configuration that \<^verbatim>\<open>getSSLMode\<close> accepts, \<^verbatim>\<open>Open\<close> returns and its first
  event is the call of \<^verbatim>\<open>sqlx.Open\<close> on the target built from \<open>open_url\<close>, whose query is
  the encoding of \<open>open_values\<close>. These hold \<^verbatim>\<open>sslmode\<close> as \<^verbatim>\<open>disable\<close> without TLS and as
  \<^verbatim>\<open>require\<close> with TLS, with TLS the three certificate parameters, each from its non-empty
  field, always \<^verbatim>\<open>timezone\<close> as \<^verbatim>\<open>utc\<close> and the application name, and \<^verbatim>\<open>search_path\<close>
  exactly when the schema is not empty.
\<close>

theorem Open_connection_target:
  assumes "getSSLMode cfg = Inr sslMode"
  shows "(\<exists>res tr. Open Encode URL_String sqlx_Open cfg now
            = Some (res, OpenPool ''pgx'' (URL_String (open_url Encode cfg sslMode)) # tr)) \<and>
         url_RawQuery (open_url Encode cfg sslMode) = Encode (open_values cfg sslMode) \<and>
         open_values cfg sslMode ''sslmode''
           = Some [if EnableTLS cfg then ''require'' else ''disable''] \<and>
         (EnableTLS cfg \<longrightarrow>
            CACert cfg \<noteq> [] \<and> ClientCert cfg \<noteq> [] \<and> ClientKey cfg \<noteq> [] \<and>
            open_values cfg sslMode ''sslrootcert'' = Some [CACert cfg] \<and>
            open_values cfg sslMode ''sslcert'' = Some [ClientCert cfg] \<and>
            open_values cfg sslMode ''sslkey'' = Some [ClientKey cfg]) \<and>
         open_values cfg sslMode ''timezone'' = Some [''utc''] \<and>
         open_values cfg sslMode ''application_name'' = Some [ApplicationName cfg] \<and>
         open_values cfg sslMode ''search_path''
           = (if Schema cfg = [] then None else Some [Schema cfg])"
  using getSSLMode_Inr [OF assms] Open_returns [OF assms]
  by (simp add: open_values_lookup open_url_def)

theorem Open_connection_target_witness:
  "getSSLMode cfg_tls = Inr ''require'' \<and>
   open_values cfg_tls ''require'' ''sslmode'' = Some [''require''] \<and>
   open_values cfg_tls ''require'' ''sslkey'' = Some [''client.key''] \<and>
   open_values cfg_tls ''require'' ''search_path'' = Some [''public''] \<and>
   getSSLMode (cfg_tls\<lparr>EnableTLS := False, Schema := []\<rparr>) = Inr ''disable'' \<and>
   open_values (cfg_tls\<lparr>EnableTLS := False, Schema := []\<rparr>) ''disable'' ''sslmode''
     = Some [''disable''] \<and>
   open_values (cfg_tls\<lparr>EnableTLS := False, Schema := []\<rparr>) ''disable'' ''search_path'' = None"
  using
    Open_connection_target [where cfg = cfg_tls and sslMode = "''require''"
      and Encode = "\<lambda>q. ''x''" and URL_String = "\<lambda>u. ''postgres://db''"
      and sqlx_Open = "\<lambda>drv target. Inl (New ''unreachable'')" and now = 0]
    Open_connection_target [where cfg = "cfg_tls\<lparr>EnableTLS := False, Schema := []\<rparr>"
      and sslMode = "''disable''"
      and Encode = "\<lambda>q. ''x''" and URL_String = "\<lambda>u. ''postgres://db''"
      and sqlx_Open = "\<lambda>drv target. Inl (New ''unreachable'')" and now = 0]
  by (simp add: cfg_tls_def getSSLMode_def)

end
